theory Spec2Isabelle
  imports Main
begin

section \<open>The waitlist backend (src/app.js)\<close>

text \<open>
  The service keeps one collection of user documents and answers five routes: two JSON
  endpoints of the signup form, the two OAuth callbacks, and a health check. The
  handlers write the collection through Mongoose's \<open>findOneAndUpdate\<close> only. Each
  handler is embedded as a function from the collection to a response and the
  collection afterwards; a route is its handler behind the middleware the application
  installs in front of every route, \<open>passport.session()\<close>, which reads the collection
  to resolve the session of a signed-in caller.

  What the handlers receive from outside is an argument: the clock (\<open>Date.now\<close>,
  \<open>new Date()\<close>) and whether the store answers (\<open>store_up\<close>; when it does not,
  the awaited call rejects and the handler's \<open>catch\<close> runs).

  The source does not say which releases of its libraries it runs on. Their behaviour
  is taken from the current major lines, which the source's idiom matches (a bare
  \<open>mongoose.connect(uri)\<close>, the OpenID scopes of the LinkedIn strategy): Mongoose 6
  and later for what an update with \<open>undefined\<close> values and an upsert do, and Passport's
  rule for the three outcomes of a verify callback. Each place says which rule it embeds.
  Requests are served one at a time; the unique index on \<open>email\<close> matters only between
  concurrent upserts and has no counterpart here.
\<close>

subsection \<open>Values of the request\<close>

text \<open>
  A member of a parsed JSON body, or a property of a passport profile, as far as the
  schema's \<open>String\<close> paths are concerned: missing (\<open>undefined\<close>), \<open>null\<close>, or a
  string. Numbers, booleans, arrays and objects in a body are outside the model.
\<close>

datatype jsval = JUndefined | JNull | JString string

text \<open>JavaScript truthiness: \<open>!v\<close> holds for \<open>undefined\<close>, \<open>null\<close> and \<open>""\<close>.\<close>

fun truthy :: "jsval \<Rightarrow> bool" where
  "truthy (JString s) = (s \<noteq> [])"
| "truthy JUndefined = False"
| "truthy JNull = False"

text \<open>\<open>a || b\<close> on values.\<close>

definition js_or :: "jsval \<Rightarrow> jsval \<Rightarrow> jsval" where
  "js_or a b = (if truthy a then a else b)"

text \<open>\<open>s.includes(c)\<close> for a needle of one character, the only use in the source.\<close>

definition str_includes :: "string \<Rightarrow> char \<Rightarrow> bool" where
  "str_includes s c = (c \<in> set s)"

subsection \<open>The user collection\<close>

text \<open>
  \<open>userSchema\<close>: \<open>email\<close> is required; \<open>fullName\<close>, \<open>country\<close>, \<open>profession\<close> and
  \<open>source\<close> are optional strings (\<open>None\<close> is a missing or null path); \<open>provider\<close>
  defaults to \<open>'local'\<close> and \<open>registeredAt\<close> to \<open>Date.now\<close>. \<open>user_id\<close> is the
  document's \<open>_id\<close>.
\<close>

record user =
  user_id :: nat
  email :: string
  fullName :: "string option"
  country :: "string option"
  profession :: "string option"
  source :: "string option"
  provider :: string
  registeredAt :: nat

text \<open>
  The collection in natural order, and the next \<open>_id\<close> the store hands out
  (an ObjectId is modelled as a counter).
\<close>

record db =
  users :: "user list"
  next_id :: nat

record env =
  now :: nat
  store_up :: bool

datatype error = Error string | StoreError

text \<open>
  The update document of a call. \<open>email\<close> and \<open>provider\<close> are either left out of the
  object literal (\<open>None\<close>) or a definite string; the other paths carry whatever value
  the request or profile had.
\<close>

record update =
  set_email :: "string option"
  set_provider :: "string option"
  set_fullName :: jsval
  set_country :: jsval
  set_profession :: jsval
  set_source :: jsval

record options =
  upsert :: bool
  new :: bool

text \<open>
  Mongoose (6 and later) moves the top-level keys of an update under \<open>$set\<close> and, while
  casting, deletes every key whose value is \<open>undefined\<close>; \<open>null\<close> is written as null.
\<close>

fun set_path :: "jsval \<Rightarrow> string option \<Rightarrow> string option" where
  "set_path JUndefined old = old"
| "set_path JNull old = None"
| "set_path (JString s) old = Some s"

definition apply_update :: "update \<Rightarrow> user \<Rightarrow> user" where
  "apply_update upd u =
     u\<lparr> email := (case set_email upd of None \<Rightarrow> email u | Some e \<Rightarrow> e),
        provider := (case set_provider upd of None \<Rightarrow> provider u | Some p \<Rightarrow> p),
        fullName := set_path (set_fullName upd) (fullName u),
        country := set_path (set_country upd) (country u),
        profession := set_path (set_profession upd) (profession u),
        source := set_path (set_source upd) (source u) \<rparr>"

text \<open>
  The document an upsert inserts: the filter's \<open>email\<close>, a new \<open>_id\<close>, the schema
  defaults for the paths the update does not set (Mongoose 6 and later apply them on
  insert), and the update itself.
\<close>

definition inserted :: "env \<Rightarrow> string \<Rightarrow> update \<Rightarrow> db \<Rightarrow> user" where
  "inserted ev e upd s =
     apply_update upd
       \<lparr> user_id = next_id s, email = e, fullName = None, country = None,
         profession = None, source = None, provider = ''local'',
         registeredAt = now ev \<rparr>"

text \<open>The first document matching \<open>{ email }\<close>.\<close>

definition findOne :: "string \<Rightarrow> user list \<Rightarrow> user option" where
  "findOne e us = find (\<lambda>u. email u = e) us"

text \<open>Replace the first document matching \<open>{ email }\<close> by its update.\<close>

fun modify_first :: "string \<Rightarrow> (user \<Rightarrow> user) \<Rightarrow> user list \<Rightarrow> user list" where
  "modify_first e f [] = []"
| "modify_first e f (u # us) =
     (if email u = e then f u # us else u # modify_first e f us)"

text \<open>
  \<open>User.findOneAndUpdate({ email }, update, options)\<close>: rejects when the store does not
  answer; otherwise updates the first match, or inserts when there is none and
  \<open>upsert\<close> is set, or does nothing. With \<open>new\<close> it resolves to the document after the
  update, without it to the one before (null when there was none).
\<close>

definition findOneAndUpdate ::
  "env \<Rightarrow> string \<Rightarrow> update \<Rightarrow> options \<Rightarrow> db \<Rightarrow> error + (user option \<times> db)" where
  "findOneAndUpdate ev e upd opts s =
     (if \<not> store_up ev then Inl StoreError
      else case findOne e (users s) of
        Some u \<Rightarrow>
          Inr (if new opts then Some (apply_update upd u) else Some u,
               s\<lparr>users := modify_first e (apply_update upd) (users s)\<rparr>)
      | None \<Rightarrow>
          if upsert opts then
            Inr (if new opts then Some (inserted ev e upd s) else None,
                 s\<lparr>users := users s @ [inserted ev e upd s], next_id := Suc (next_id s)\<rparr>)
          else Inr (None, s))"

subsection \<open>Responses\<close>

text \<open>
  The body of a JSON response: \<open>{ error }\<close>, \<open>{ message, userId }\<close>,
  \<open>{ message, data }\<close> (\<open>data\<close> is null when there is no document) and
  \<open>{ status, timestamp }\<close>.
\<close>

datatype body =
  ErrorBody string
| Seeded string nat
| Saved string "user option"
| Status string nat

text \<open>
  \<open>res.status(n).json(b)\<close>, \<open>res.redirect(url)\<close>, and what Express's default error
  handler sends when a middleware calls \<open>next(err)\<close>: status 500, no redirect.
\<close>

datatype response =
  Json nat body
| Redirect string
| Unhandled error

subsection \<open>The signup routes\<close>

definition logic_seeded :: string where
  "logic_seeded = [CHR 0xE2, CHR 0x9C, CHR 0x85] @ '' Logic Seeded''"

definition details_saved :: string where
  "details_saved = ''Details saved. You'' @ [CHR 0x27] @ ''re now part of QPS waitlist!''"

text \<open>
  The handler of \<open>POST /api/register-email\<close> (the function given to \<open>app.post\<close>),
  from the \<open>email\<close> it has taken out of the body. Reading \<open>user._id\<close> of a null
  result would throw into the \<open>catch\<close>.
\<close>

definition register_email :: "env \<Rightarrow> jsval \<Rightarrow> db \<Rightarrow> response \<times> db" where
  "register_email ev em s =
     (case em of
        JString e \<Rightarrow>
          if e = [] \<or> \<not> str_includes e CHR ''@'' then
            (Json 400 (ErrorBody ''Valid email required''), s)
          else
            (case findOneAndUpdate ev e
                    \<lparr> set_email = Some e, set_provider = None, set_fullName = JUndefined,
                      set_country = JUndefined, set_profession = JUndefined,
                      set_source = JUndefined \<rparr>
                    \<lparr>upsert = True, new = True\<rparr> s of
               Inl err \<Rightarrow> (Json 500 (ErrorBody ''Server error''), s)
             | Inr (None, s') \<Rightarrow> (Json 500 (ErrorBody ''Server error''), s')
             | Inr (Some u, s') \<Rightarrow> (Json 200 (Seeded logic_seeded (user_id u)), s'))
      | _ \<Rightarrow> (Json 400 (ErrorBody ''Valid email required''), s))"

text \<open>
  The handler of \<open>POST /api/update-details\<close>, from the members it has taken out of the
  body. The update document is the four members as they come, \<open>email\<close> is not part of
  it, and the options are \<open>{ new: true }\<close> alone.
\<close>

record details =
  d_email :: jsval
  d_fullName :: jsval
  d_country :: jsval
  d_profession :: jsval
  d_source :: jsval

definition update_details :: "env \<Rightarrow> details \<Rightarrow> db \<Rightarrow> response \<times> db" where
  "update_details ev b s =
     (case d_email b of
        JString e \<Rightarrow>
          if e = [] then (Json 400 (ErrorBody ''Email required''), s)
          else
            (case findOneAndUpdate ev e
                    \<lparr> set_email = None, set_provider = None,
                      set_fullName = d_fullName b, set_country = d_country b,
                      set_profession = d_profession b, set_source = d_source b \<rparr>
                    \<lparr>upsert = False, new = True\<rparr> s of
               Inl err \<Rightarrow> (Json 500 (ErrorBody ''System Latency Error''), s)
             | Inr (updatedUser, s') \<Rightarrow> (Json 200 (Saved details_saved updatedUser), s'))
      | _ \<Rightarrow> (Json 400 (ErrorBody ''Email required''), s))"

text \<open>The handler of \<open>GET /health\<close>.\<close>

definition health :: "env \<Rightarrow> db \<Rightarrow> response \<times> db" where
  "health ev s = (Json 200 (Status ''QPS Kernel Active'' (now ev)), s)"

subsection \<open>Sign-in with Google and LinkedIn\<close>

text \<open>
  The profile passport hands to the verify callback: \<open>profile.email\<close> (LinkedIn),
  \<open>profile.emails\<close> (each entry by its \<open>value\<close>) and \<open>profile.displayName\<close>.
\<close>

record profile =
  p_email :: jsval
  emails :: "jsval list option"
  displayName :: jsval

text \<open>\<open>profile.emails?.[0]?.value\<close>.\<close>

definition first_email :: "profile \<Rightarrow> jsval" where
  "first_email p = (case emails p of None \<Rightarrow> JUndefined | Some [] \<Rightarrow> JUndefined | Some (v # _) \<Rightarrow> v)"

text \<open>What the verify callback passes to \<open>done\<close>: \<open>done(err)\<close> or \<open>done(null, user)\<close>.\<close>

datatype verified = DoneErr error | DoneUser "user option"

text \<open>The verify callback of \<open>GoogleStrategy\<close>.\<close>

definition google_verify :: "env \<Rightarrow> profile \<Rightarrow> db \<Rightarrow> verified \<times> db" where
  "google_verify ev p s =
     (case first_email p of
        JString e \<Rightarrow>
          if e = [] then (DoneErr (Error ''No email in Google profile''), s)
          else
            (case findOneAndUpdate ev e
                    \<lparr> set_email = Some e, set_provider = Some ''google'',
                      set_fullName = displayName p, set_country = JUndefined,
                      set_profession = JUndefined, set_source = JUndefined \<rparr>
                    \<lparr>upsert = True, new = True\<rparr> s of
               Inl err \<Rightarrow> (DoneErr err, s)
             | Inr (u, s') \<Rightarrow> (DoneUser u, s'))
      | _ \<Rightarrow> (DoneErr (Error ''No email in Google profile''), s))"

text \<open>
  The verify callback of \<open>LinkedInStrategy\<close>; the email is
  \<open>profile.email || profile.emails?.[0]?.value\<close>.
\<close>

definition linkedin_verify :: "env \<Rightarrow> profile \<Rightarrow> db \<Rightarrow> verified \<times> db" where
  "linkedin_verify ev p s =
     (case js_or (p_email p) (first_email p) of
        JString e \<Rightarrow>
          if e = [] then (DoneErr (Error ''No email in LinkedIn profile''), s)
          else
            (case findOneAndUpdate ev e
                    \<lparr> set_email = Some e, set_provider = Some ''linkedin'',
                      set_fullName = displayName p, set_country = JUndefined,
                      set_profession = JUndefined, set_source = JUndefined \<rparr>
                    \<lparr>upsert = True, new = True\<rparr> s of
               Inl err \<Rightarrow> (DoneErr err, s)
             | Inr (u, s') \<Rightarrow> (DoneUser u, s'))
      | _ \<Rightarrow> (DoneErr (Error ''No email in LinkedIn profile''), s))"

text \<open>\<open>passport.serializeUser\<close> keeps the \<open>_id\<close>; \<open>deserializeUser\<close> is \<open>User.findById\<close>.\<close>

definition serializeUser :: "user \<Rightarrow> nat" where
  "serializeUser u = user_id u"

definition deserializeUser :: "env \<Rightarrow> nat \<Rightarrow> db \<Rightarrow> error + user option" where
  "deserializeUser ev i s =
     (if \<not> store_up ev then Inl StoreError else Inr (find (\<lambda>u. user_id u = i) (users s)))"

text \<open>\<open>encodeURIComponent\<close> on the UTF-8 bytes of a string.\<close>

definition unreserved :: "char \<Rightarrow> bool" where
  "unreserved c =
     (c \<in> set (''ABCDEFGHIJKLMNOPQRSTUVWXYZabcdefghijklmnopqrstuvwxyz0123456789-_.!~*()''
                @ [CHR 0x27]))"

definition hex_digit :: "nat \<Rightarrow> char" where
  "hex_digit n = ''0123456789ABCDEF'' ! (n mod 16)"

definition encodeURIComponent :: "string \<Rightarrow> string" where
  "encodeURIComponent s =
     concat (map (\<lambda>c. if unreserved c then [c]
                       else [CHR ''%'', hex_digit (of_char c div 16), hex_digit (of_char c)]) s)"

text \<open>
  The handlers of \<open>GET /auth/<provider>/callback\<close>, from the point where the provider
  has answered with a profile: \<open>passport.authenticate(provider, { session: true, failureRedirect: '/error' })\<close>
  followed by the route's own handler. The session is the \<open>_id\<close> it holds, if any.
  Passport's strategy ends in one of three ways:
  \<^item> \<open>done(err)\<close>: the strategy's \<open>error\<close> action, which is \<open>next(err)\<close>; the route
    handler does not run and \<open>failureRedirect\<close> is not consulted;
  \<^item> \<open>done(null, user)\<close> with no user: the \<open>fail\<close> action, which redirects to
    \<open>failureRedirect\<close>;
  \<^item> \<open>done(null, user)\<close>: the \<open>success\<close> action logs the user in (the session keeps
    \<open>serializeUser user\<close>) and the route handler redirects to the details page.
\<close>

definition auth_callback ::
  "(env \<Rightarrow> profile \<Rightarrow> db \<Rightarrow> verified \<times> db) \<Rightarrow> env \<Rightarrow> profile \<Rightarrow> nat option \<Rightarrow> db
     \<Rightarrow> response \<times> nat option \<times> db" where
  "auth_callback strategy ev p session s =
     (case strategy ev p s of
        (DoneErr err, s') \<Rightarrow> (Unhandled err, session, s')
      | (DoneUser None, s') \<Rightarrow> (Redirect ''/error'', session, s')
      | (DoneUser (Some u), s') \<Rightarrow>
          (Redirect (''https://quantumshell.live/details?email='' @ encodeURIComponent (email u)),
           Some (serializeUser u), s'))"

definition auth_google_callback ::
  "env \<Rightarrow> profile \<Rightarrow> nat option \<Rightarrow> db \<Rightarrow> response \<times> nat option \<times> db" where
  "auth_google_callback = auth_callback google_verify"

definition auth_linkedin_callback ::
  "env \<Rightarrow> profile \<Rightarrow> nat option \<Rightarrow> db \<Rightarrow> response \<times> nat option \<times> db" where
  "auth_linkedin_callback = auth_callback linkedin_verify"

subsection \<open>The routes behind the session middleware\<close>

text \<open>
  \<open>app.use(passport.session())\<close> stands in front of every route. For a request whose
  session holds a user id it calls \<open>deserializeUser\<close>, that is \<open>User.findById\<close>:
  \<^item> when that rejects, \<open>done(err)\<close> becomes \<open>next(err)\<close> and the route's handler
    never runs;
  \<^item> when there is no such user, the id is deleted from the session and the request
    goes on signed out;
  \<^item> otherwise the request goes on with its session.
  A request with no user id in its session goes straight on. The result is the session
  the handler sees.
\<close>

definition passport_session :: "env \<Rightarrow> nat option \<Rightarrow> db \<Rightarrow> error + nat option" where
  "passport_session ev session s =
     (case session of
        None \<Rightarrow> Inr None
      | Some i \<Rightarrow>
          (case deserializeUser ev i s of
             Inl err \<Rightarrow> Inl err
           | Inr None \<Rightarrow> Inr None
           | Inr (Some user) \<Rightarrow> Inr (Some i)))"

text \<open>
  \<open>POST /api/register-email\<close>. The body is given by its \<open>email\<close> member; \<open>None\<close> is a
  request for which \<open>express.json()\<close> has parsed nothing and left \<open>req.body\<close> undefined
  (Express 5; Express 4 puts an empty object there, whose \<open>email\<close> is undefined), so
  that taking \<open>email\<close> out of it throws into the \<open>catch\<close>.
\<close>

definition post_register_email ::
  "env \<Rightarrow> nat option \<Rightarrow> jsval option \<Rightarrow> db \<Rightarrow> response \<times> nat option \<times> db" where
  "post_register_email ev session req_body s =
     (case passport_session ev session s of
        Inl err \<Rightarrow> (Unhandled err, session, s)
      | Inr session' \<Rightarrow>
          (case req_body of
             None \<Rightarrow> (Json 500 (ErrorBody ''Server error''), session', s)
           | Some em \<Rightarrow> (fst (register_email ev em s), session', snd (register_email ev em s))))"

text \<open>\<open>POST /api/update-details\<close>, with the same reading of the body.\<close>

definition post_update_details ::
  "env \<Rightarrow> nat option \<Rightarrow> details option \<Rightarrow> db \<Rightarrow> response \<times> nat option \<times> db" where
  "post_update_details ev session req_body s =
     (case passport_session ev session s of
        Inl err \<Rightarrow> (Unhandled err, session, s)
      | Inr session' \<Rightarrow>
          (case req_body of
             None \<Rightarrow> (Json 500 (ErrorBody ''System Latency Error''), session', s)
           | Some b \<Rightarrow> (fst (update_details ev b s), session', snd (update_details ev b s))))"

text \<open>\<open>GET /health\<close>.\<close>

definition get_health :: "env \<Rightarrow> nat option \<Rightarrow> db \<Rightarrow> response \<times> nat option \<times> db" where
  "get_health ev session s =
     (case passport_session ev session s of
        Inl err \<Rightarrow> (Unhandled err, session, s)
      | Inr session' \<Rightarrow> (fst (health ev s), session', snd (health ev s)))"

text \<open>\<open>GET /auth/google/callback\<close> and \<open>GET /auth/linkedin/callback\<close>.\<close>

definition get_auth_google_callback ::
  "env \<Rightarrow> nat option \<Rightarrow> profile \<Rightarrow> db \<Rightarrow> response \<times> nat option \<times> db" where
  "get_auth_google_callback ev session p s =
     (case passport_session ev session s of
        Inl err \<Rightarrow> (Unhandled err, session, s)
      | Inr session' \<Rightarrow> auth_google_callback ev p session' s)"

definition get_auth_linkedin_callback ::
  "env \<Rightarrow> nat option \<Rightarrow> profile \<Rightarrow> db \<Rightarrow> response \<times> nat option \<times> db" where
  "get_auth_linkedin_callback ev session p s =
     (case passport_session ev session s of
        Inl err \<Rightarrow> (Unhandled err, session, s)
      | Inr session' \<Rightarrow> auth_linkedin_callback ev p session' s)"

subsection \<open>Sequences of requests\<close>

datatype request =
  RegisterEmail jsval
| UpdateDetails details
| GoogleCallback profile "nat option"
| LinkedInCallback profile "nat option"
| Health

text \<open>
  The collection after one request whose handler runs, served at \<open>ev\<close>. (A handler
  that the session middleware keeps from running leaves the collection as it was.)
\<close>

fun serve :: "env \<Rightarrow> request \<Rightarrow> db \<Rightarrow> db" where
  "serve ev (RegisterEmail em) s = snd (register_email ev em s)"
| "serve ev (UpdateDetails b) s = snd (update_details ev b s)"
| "serve ev (GoogleCallback p session) s = snd (snd (auth_google_callback ev p session s))"
| "serve ev (LinkedInCallback p session) s = snd (snd (auth_linkedin_callback ev p session s))"
| "serve ev Health s = snd (health ev s)"

fun run :: "(env \<times> request) list \<Rightarrow> db \<Rightarrow> db" where
  "run [] s = s"
| "run ((ev, r) # rs) s = run rs (serve ev r s)"

text \<open>No two documents of the collection have the same \<open>email\<close>.\<close>

definition unique_emails :: "db \<Rightarrow> bool" where
  "unique_emails s = distinct (map email (users s))"

text \<open>The documents filed under an email.\<close>

definition records_of :: "string \<Rightarrow> db \<Rightarrow> user list" where
  "records_of e s = filter (\<lambda>u. email u = e) (users s)"

text \<open>
  What one request does to the collection: nothing, or one \<open>findOneAndUpdate\<close> whose
  update leaves \<open>email\<close> out or repeats the filter's.
\<close>

inductive touches :: "env \<Rightarrow> db \<Rightarrow> db \<Rightarrow> bool" for ev s where
  idle: "touches ev s s"
| call: "findOneAndUpdate ev e upd opts s = Inr (res, s') \<Longrightarrow>
         set_email upd = None \<or> set_email upd = Some e \<Longrightarrow> touches ev s s'"

subsection \<open>Sample values\<close>

definition up :: "nat \<Rightarrow> env" where
  "up t = \<lparr>now = t, store_up = True\<rparr>"

definition down :: "nat \<Rightarrow> env" where
  "down t = \<lparr>now = t, store_up = False\<rparr>"

definition empty_db :: db where
  "empty_db = \<lparr>users = [], next_id = 0\<rparr>"

definition ann :: user where
  "ann = \<lparr> user_id = 0, email = ''a@x.com'', fullName = Some ''Ann'', country = None,
           profession = None, source = None, provider = ''google'', registeredAt = 5 \<rparr>"

definition ann_db :: db where
  "ann_db = \<lparr>users = [ann], next_id = 1\<rparr>"

definition google_ann :: profile where
  "google_ann = \<lparr>p_email = JUndefined, emails = Some [JString ''a@x.com''], displayName = JString ''Ann''\<rparr>"

definition linkedin_ann :: profile where
  "linkedin_ann = \<lparr>p_email = JString ''a@x.com'', emails = None, displayName = JString ''Ann B''\<rparr>"

definition no_email :: profile where
  "no_email = \<lparr>p_email = JUndefined, emails = None, displayName = JString ''Ann''\<rparr>"

definition only_country :: details where
  "only_country = \<lparr> d_email = JString ''a@x.com'', d_fullName = JUndefined,
       d_country = JString ''PK'', d_profession = JUndefined, d_source = JUndefined \<rparr>"

definition bob_details :: details where
  "bob_details = \<lparr> d_email = JString ''b@x.com'', d_fullName = JString ''Bob'',
       d_country = JString ''PK'', d_profession = JString ''dev'', d_source = JString ''web'' \<rparr>"

section \<open>Properties of the store\<close>

lemma email_apply_update:
  "set_email upd = None \<or> set_email upd = Some (email u) \<Longrightarrow> email (apply_update upd u) = email u"
  by (auto simp: apply_update_def)

lemma registeredAt_apply_update: "registeredAt (apply_update upd u) = registeredAt u"
  by (simp add: apply_update_def)

lemma user_id_apply_update: "user_id (apply_update upd u) = user_id u"
  by (simp add: apply_update_def)

lemma map_email_modify_first:
  "(\<And>u. email u = e \<Longrightarrow> email (f u) = e) \<Longrightarrow> map email (modify_first e f us) = map email us"
  by (induction us) auto

lemma findOne_modify_first:
  "(\<And>u. email u = e \<Longrightarrow> email (f u) = e) \<Longrightarrow>
   findOne e' (modify_first e f us) = (if e' = e then map_option f (findOne e us) else findOne e' us)"
  by (induction us) (auto simp: findOne_def)

lemma findOne_append:
  "findOne e' (us @ [x]) =
     (case findOne e' us of Some u \<Rightarrow> Some u | None \<Rightarrow> if email x = e' then Some x else None)"
  by (induction us) (auto simp: findOne_def)

lemma findOne_None_iff: "findOne e us = None \<longleftrightarrow> e \<notin> set (map email us)"
  by (induction us) (auto simp: findOne_def)

lemma findOne_Some_email: "findOne e us = Some u \<Longrightarrow> email u = e"
  by (induction us) (auto simp: findOne_def split: if_splits)

lemma modify_first_id: "(\<And>u. email u = e \<Longrightarrow> f u = u) \<Longrightarrow> modify_first e f us = us"
  by (induction us) auto

lemma filter_unique:
  "distinct (map email us) \<Longrightarrow> findOne e us = Some u \<Longrightarrow> filter (\<lambda>u. email u = e) us = [u]"
proof (induction us)
  case Nil
  then show ?case by (simp add: findOne_def)
next
  case (Cons a us)
  show ?case
  proof (cases "email a = e")
    case True
    with Cons.prems have "a = u" and "e \<notin> email ` set us"
      by (auto simp: findOne_def)
    then have "filter (\<lambda>u. email u = e) us = []"
      by (auto simp: filter_empty_conv)
    with True \<open>a = u\<close> show ?thesis by simp
  next
    case False
    with Cons show ?thesis by (simp add: findOne_def)
  qed
qed

text \<open>What a call does, by the two cases of the lookup.\<close>

lemma findOneAndUpdate_down: "\<not> store_up ev \<Longrightarrow> findOneAndUpdate ev e upd opts s = Inl StoreError"
  by (simp add: findOneAndUpdate_def)

lemma findOneAndUpdate_found:
  "store_up ev \<Longrightarrow> findOne e (users s) = Some u \<Longrightarrow> new opts \<Longrightarrow>
   findOneAndUpdate ev e upd opts s =
     Inr (Some (apply_update upd u), s\<lparr>users := modify_first e (apply_update upd) (users s)\<rparr>)"
  by (simp add: findOneAndUpdate_def)

lemma findOneAndUpdate_insert:
  "store_up ev \<Longrightarrow> findOne e (users s) = None \<Longrightarrow> new opts \<Longrightarrow> upsert opts \<Longrightarrow>
   findOneAndUpdate ev e upd opts s =
     Inr (Some (inserted ev e upd s),
          s\<lparr>users := users s @ [inserted ev e upd s], next_id := Suc (next_id s)\<rparr>)"
  by (simp add: findOneAndUpdate_def)

lemma findOneAndUpdate_absent:
  "findOne e (users s) = None \<Longrightarrow> \<not> upsert opts \<Longrightarrow> findOneAndUpdate ev e upd opts s = Inr (r, s') \<Longrightarrow>
   r = None \<and> s' = s"
  by (auto simp: findOneAndUpdate_def split: if_splits)

lemma email_inserted:
  "set_email upd = None \<or> set_email upd = Some e \<Longrightarrow> email (inserted ev e upd s) = e"
  by (auto simp: inserted_def apply_update_def)

text \<open>A call whose update leaves \<open>email\<close> alone, or sets it to the filter's, keeps emails unique.\<close>

lemma findOneAndUpdate_unique:
  assumes "set_email upd = None \<or> set_email upd = Some e"
    and "findOneAndUpdate ev e upd opts s = Inr (r, s')"
    and "unique_emails s"
  shows "unique_emails s'"
proof (cases "findOne e (users s)")
  case None
  then have "e \<notin> set (map email (users s))"
    by (simp add: findOne_None_iff)
  with assms None show ?thesis
    by (auto simp: findOneAndUpdate_def unique_emails_def email_inserted split: if_splits)
next
  case (Some u)
  have "map email (modify_first e (apply_update upd) (users s)) = map email (users s)"
    using assms(1) by (intro map_email_modify_first) (auto simp: apply_update_def)
  with assms Some show ?thesis
    by (auto simp: findOneAndUpdate_def unique_emails_def split: if_splits)
qed

lemma findOneAndUpdate_users:
  "findOneAndUpdate ev e upd opts s = Inr (r, s') \<Longrightarrow>
   users s' =
     (case findOne e (users s) of
        Some u \<Rightarrow> modify_first e (apply_update upd) (users s)
      | None \<Rightarrow> if upsert opts then users s @ [inserted ev e upd s] else users s)"
  by (auto simp: findOneAndUpdate_def split: if_splits option.splits)

lemma findOne_after_update:
  assumes "set_email upd = None \<or> set_email upd = Some e"
  shows "findOne e' (modify_first e (apply_update upd) us) =
           (if e' = e then map_option (apply_update upd) (findOne e us) else findOne e' us)"
  using assms by (intro findOne_modify_first) (auto simp: apply_update_def)

text \<open>A document that exists keeps its \<open>_id\<close> and \<open>registeredAt\<close> through any call.\<close>

lemma findOneAndUpdate_keeps:
  assumes "set_email upd = None \<or> set_email upd = Some e"
    and "findOneAndUpdate ev e upd opts s = Inr (r, s')"
    and "findOne e' (users s) = Some u"
  shows "\<exists>u'. findOne e' (users s') = Some u' \<and> registeredAt u' = registeredAt u
            \<and> user_id u' = user_id u"
proof (cases "findOne e (users s)")
  case None
  with assms(3) findOneAndUpdate_users [OF assms(2)] show ?thesis
    by (simp add: findOne_append)
next
  case (Some v)
  with findOneAndUpdate_users [OF assms(2)]
  have "users s' = modify_first e (apply_update upd) (users s)"
    by simp
  with assms(3) Some show ?thesis
    by (auto simp: findOne_after_update [OF assms(1)] registeredAt_apply_update
        user_id_apply_update)
qed

text \<open>A document that a call brings into being is stamped with the time of the call.\<close>

lemma findOneAndUpdate_stamps:
  assumes "set_email upd = None \<or> set_email upd = Some e"
    and "findOneAndUpdate ev e upd opts s = Inr (r, s')"
    and "findOne e' (users s) = None"
    and "findOne e' (users s') = Some u'"
  shows "registeredAt u' = now ev"
proof (cases "findOne e (users s)")
  case None
  with assms(3,4) findOneAndUpdate_users [OF assms(2)] show ?thesis
    by (auto simp: findOne_append inserted_def registeredAt_apply_update split: if_splits)
next
  case (Some v)
  with findOneAndUpdate_users [OF assms(2)]
  have "users s' = modify_first e (apply_update upd) (users s)"
    by simp
  with assms(3,4) Some show ?thesis
    by (simp add: findOne_after_update [OF assms(1)] split: if_splits)
qed

section \<open>Properties of the routes\<close>

lemma register_email_touches: "touches ev s (snd (register_email ev em s))"
  by (auto simp: register_email_def split: jsval.splits sum.splits option.splits
      intro: idle call)

lemma update_details_touches: "touches ev s (snd (update_details ev b s))"
  by (auto simp: update_details_def split: jsval.splits sum.splits option.splits
      intro: idle call)

lemma google_verify_touches: "touches ev s (snd (google_verify ev p s))"
  by (auto simp: google_verify_def split: jsval.splits sum.splits option.splits
      intro: idle call)

lemma linkedin_verify_touches: "touches ev s (snd (linkedin_verify ev p s))"
  by (auto simp: linkedin_verify_def split: jsval.splits sum.splits option.splits
      intro: idle call)

lemma auth_callback_db: "snd (snd (auth_callback strategy ev p session s)) = snd (strategy ev p s)"
  by (simp add: auth_callback_def split: prod.splits verified.splits option.splits)

lemma serve_touches: "touches ev s (serve ev r s)"
proof (cases r)
  case (RegisterEmail em)
  then show ?thesis by (simp add: register_email_touches)
next
  case (UpdateDetails b)
  then show ?thesis by (simp add: update_details_touches)
next
  case (GoogleCallback p session)
  then show ?thesis
    by (simp add: auth_google_callback_def auth_callback_db google_verify_touches)
next
  case (LinkedInCallback p session)
  then show ?thesis
    by (simp add: auth_linkedin_callback_def auth_callback_db linkedin_verify_touches)
next
  case Health
  then show ?thesis by (simp add: health_def idle)
qed

lemma touches_unique:
  assumes "touches ev s s'" and "unique_emails s"
  shows "unique_emails s'"
  using assms
proof cases
  case idle
  with assms(2) show ?thesis by simp
next
  case (call e upd opts res)
  from findOneAndUpdate_unique [OF call(2) call(1) assms(2)] show ?thesis .
qed

lemma touches_keeps:
  assumes "touches ev s s'" and "findOne e' (users s) = Some u"
  shows "\<exists>u'. findOne e' (users s') = Some u' \<and> registeredAt u' = registeredAt u
            \<and> user_id u' = user_id u"
  using assms
proof cases
  case idle
  with assms(2) show ?thesis by simp
next
  case (call e upd opts res)
  from findOneAndUpdate_keeps [OF call(2) call(1) assms(2)] show ?thesis .
qed

lemma touches_stamps:
  assumes "touches ev s s'" and "findOne e' (users s) = None"
    and "findOne e' (users s') = Some u'"
  shows "registeredAt u' = now ev"
  using assms
proof cases
  case idle
  with assms(2,3) show ?thesis by simp
next
  case (call e upd opts res)
  from findOneAndUpdate_stamps [OF call(2) call(1) assms(2,3)] show ?thesis .
qed

lemmas serve_unique = touches_unique [OF serve_touches]
lemmas serve_keeps = touches_keeps [OF serve_touches]
lemmas serve_stamps = touches_stamps [OF serve_touches]

lemma run_keeps:
  "findOne e (users s) = Some u \<Longrightarrow>
   \<exists>u'. findOne e (users (run rs s)) = Some u' \<and> registeredAt u' = registeredAt u
        \<and> user_id u' = user_id u"
proof (induction rs arbitrary: s u)
  case Nil
  then show ?case by simp
next
  case (Cons a rs)
  obtain ev r where a: "a = (ev, r)" by (cases a)
  from serve_keeps [OF Cons.prems, of ev r] obtain v where
    v: "findOne e (users (serve ev r s)) = Some v" "registeredAt v = registeredAt u"
       "user_id v = user_id u"
    by blast
  from Cons.IH [OF v(1)] v(2,3) a show ?case by simp
qed

lemma contains_at_nonempty: "str_includes e CHR ''@'' \<Longrightarrow> e \<noteq> []"
  by (auto simp: str_includes_def)

text \<open>An update that only repeats the filter's email changes nothing in a matching document.\<close>

lemma apply_update_only_email:
  "email u = e \<Longrightarrow>
   apply_update \<lparr> set_email = Some e, set_provider = None, set_fullName = JUndefined,
       set_country = JUndefined, set_profession = JUndefined, set_source = JUndefined \<rparr> u = u"
  by (simp add: apply_update_def)

lemma register_email_existing:
  assumes "store_up ev" and "str_includes e CHR ''@''" and "findOne e (users s) = Some u"
  shows "register_email ev (JString e) s = (Json 200 (Seeded logic_seeded (user_id u)), s)"
proof -
  let ?upd = "\<lparr> set_email = Some e, set_provider = None, set_fullName = JUndefined,
       set_country = JUndefined, set_profession = JUndefined, set_source = JUndefined \<rparr>"
  have u: "apply_update ?upd u = u"
    using findOne_Some_email [OF assms(3)] by (rule apply_update_only_email)
  have "modify_first e (apply_update ?upd) (users s) = users s"
    by (rule modify_first_id) (rule apply_update_only_email)
  with u assms(1,3)
  have "findOneAndUpdate ev e ?upd \<lparr>upsert = True, new = True\<rparr> s = Inr (Some u, s)"
    by (simp add: findOneAndUpdate_def)
  with assms(2) contains_at_nonempty [OF assms(2)] show ?thesis
    by (simp add: register_email_def)
qed

text \<open>An upsert that asks for the new document returns the document it leaves under the email.\<close>

lemma upsert_returns_stored:
  assumes "store_up ev" and "set_email upd = None \<or> set_email upd = Some e"
  shows "\<exists>u s'. findOneAndUpdate ev e upd \<lparr>upsert = True, new = True\<rparr> s = Inr (Some u, s')
           \<and> findOne e (users s') = Some u
           \<and> (\<forall>p. set_provider upd = Some p \<longrightarrow> provider u = p)
           \<and> (\<forall>n. set_fullName upd = JString n \<longrightarrow> fullName u = Some n)"
proof (cases "findOne e (users s)")
  case None
  have "email (inserted ev e upd s) = e"
    using assms(2) by (rule email_inserted)
  with None assms(1) show ?thesis
    by (auto simp: findOneAndUpdate_def findOne_append inserted_def apply_update_def)
next
  case (Some v)
  with assms(1) show ?thesis
    by (auto simp: findOneAndUpdate_def findOne_after_update [OF assms(2)] apply_update_def)
qed

lemma records_of_unique:
  "unique_emails s \<Longrightarrow> findOne e (users s) = Some u \<Longrightarrow> records_of e s = [u]"
  by (simp add: unique_emails_def records_of_def filter_unique)

lemma google_verify_stores:
  assumes "store_up ev" and "first_email p = JString e" and "e \<noteq> []"
  shows "\<exists>u. findOne e (users (snd (google_verify ev p s))) = Some u \<and> provider u = ''google''"
proof -
  let ?upd = "\<lparr> set_email = Some e, set_provider = Some ''google'',
      set_fullName = displayName p, set_country = JUndefined,
      set_profession = JUndefined, set_source = JUndefined \<rparr>"
  from upsert_returns_stored [OF assms(1), of ?upd e s] obtain u s' where
    "findOneAndUpdate ev e ?upd \<lparr>upsert = True, new = True\<rparr> s = Inr (Some u, s')"
    "findOne e (users s') = Some u" "provider u = ''google''"
    by auto
  with assms(2,3) show ?thesis
    by (simp add: google_verify_def)
qed

lemma linkedin_verify_stores:
  assumes "store_up ev" and "js_or (p_email p) (first_email p) = JString e" and "e \<noteq> []"
    and "displayName p = JString n"
  shows "\<exists>u. findOne e (users (snd (linkedin_verify ev p s))) = Some u
            \<and> provider u = ''linkedin'' \<and> fullName u = Some n"
proof -
  let ?upd = "\<lparr> set_email = Some e, set_provider = Some ''linkedin'',
      set_fullName = displayName p, set_country = JUndefined,
      set_profession = JUndefined, set_source = JUndefined \<rparr>"
  from upsert_returns_stored [OF assms(1), of ?upd e s] obtain u s' where
    "findOneAndUpdate ev e ?upd \<lparr>upsert = True, new = True\<rparr> s = Inr (Some u, s')"
    "findOne e (users s') = Some u" "provider u = ''linkedin''" "fullName u = Some n"
    using assms(4) by auto
  with assms(2,3) show ?thesis
    by (simp add: linkedin_verify_def)
qed



lemma post_register_email_store:
  "snd (snd (post_register_email ev session (Some em) s)) = s \<or>
   snd (snd (post_register_email ev session (Some em) s)) = serve ev (RegisterEmail em) s"
  by (simp add: post_register_email_def split: sum.splits)

lemma post_update_details_store:
  "snd (snd (post_update_details ev session (Some b) s)) = s \<or>
   snd (snd (post_update_details ev session (Some b) s)) = serve ev (UpdateDetails b) s"
  by (simp add: post_update_details_def split: sum.splits)


lemma get_auth_google_callback_store:
  "snd (snd (get_auth_google_callback ev session p s)) = s \<or>
   (\<exists>session'. snd (snd (get_auth_google_callback ev session p s)) =
      serve ev (GoogleCallback p session') s)"
  by (auto simp: get_auth_google_callback_def split: sum.splits)

lemma get_auth_linkedin_callback_store:
  "snd (snd (get_auth_linkedin_callback ev session p s)) = s \<or>
   (\<exists>session'. snd (snd (get_auth_linkedin_callback ev session p s)) =
      serve ev (LinkedInCallback p session') s)"
  by (auto simp: get_auth_linkedin_callback_def split: sum.splits)


lemmas handler_defs =
  register_email_def update_details_def findOneAndUpdate_def findOne_def inserted_def
  apply_update_def str_includes_def up_def empty_db_def ann_def ann_db_def
  google_verify_def linkedin_verify_def auth_callback_def auth_google_callback_def
  auth_linkedin_callback_def first_email_def js_or_def serializeUser_def records_of_def
  unique_emails_def health_def google_ann_def linkedin_ann_def no_email_def
  only_country_def bob_details_def down_def passport_session_def deserializeUser_def
  post_register_email_def get_health_def

section \<open>The claims\<close>

text \<open>
  Claim C3. \<open>register-email\<close> is idempotent: for an email that is already in the store
  (an address, so it contains \<open>@\<close>) and a store that answers, the call returns status
  200 with the \<open>_id\<close> of the existing record, the number of stored records is
  unchanged and no second record for the email appears.
\<close>

theorem register_email_idempotent:
  assumes "store_up ev" and "str_includes e CHR ''@''" and "findOne e (users s) = Some u"
  shows "fst (register_email ev (JString e) s) = Json 200 (Seeded logic_seeded (user_id u))
       \<and> length (users (snd (register_email ev (JString e) s))) = length (users s)
       \<and> records_of e (snd (register_email ev (JString e) s)) = records_of e s"
  by (simp add: register_email_existing [OF assms])

theorem register_email_idempotent_witness:
  "store_up (up 9) \<and> str_includes ''a@x.com'' CHR ''@'' \<and>
   findOne ''a@x.com'' (users ann_db) = Some ann \<and>
   fst (register_email (up 9) (JString ''a@x.com'') ann_db) = Json 200 (Seeded logic_seeded 0) \<and>
   length (users (snd (register_email (up 9) (JString ''a@x.com'') ann_db))) = 1 \<and>
   records_of ''a@x.com'' (snd (register_email (up 9) (JString ''a@x.com'') ann_db)) = [ann]"
proof -
  have a: "store_up (up 9)" by (simp add: up_def)
  have b: "str_includes ''a@x.com'' CHR ''@''" by (simp add: str_includes_def)
  have c: "findOne ''a@x.com'' (users ann_db) = Some ann" by (simp add: findOne_def ann_db_def ann_def)
  from register_email_idempotent [OF a b c] a b c show ?thesis
    by (simp add: ann_db_def records_of_def ann_def)
qed




text \<open>
  Claim C6. \<open>registeredAt\<close> is set once, when the record is created, and never changes
  afterwards: a request that brings the record of an email into being stamps it with the
  time of that request, and a record that exists keeps its \<open>registeredAt\<close> through every
  sequence of \<open>register-email\<close>, \<open>update-details\<close> and sign-in requests, on the same
  email or another.
\<close>

theorem registeredAt_set_once:
  "(findOne e (users s) = None \<longrightarrow> findOne e (users (serve ev r s)) = Some u \<longrightarrow>
      registeredAt u = now ev) \<and>
   (findOne e (users s) = Some v \<longrightarrow>
      (\<exists>u'. findOne e (users (run rs s)) = Some u' \<and> registeredAt u' = registeredAt v))"
proof (intro conjI impI)
  assume "findOne e (users s) = None" and "findOne e (users (serve ev r s)) = Some u"
  then show "registeredAt u = now ev"
    by (rule serve_stamps)
next
  assume "findOne e (users s) = Some v"
  from run_keeps [OF this, of rs]
  show "\<exists>u'. findOne e (users (run rs s)) = Some u' \<and> registeredAt u' = registeredAt v"
    by blast
qed

theorem registeredAt_set_once_witness:
  "findOne ''a@x.com'' (users empty_db) = None \<and>
   findOne ''a@x.com'' (users (serve (up 5) (RegisterEmail (JString ''a@x.com'')) empty_db)) =
     Some \<lparr> user_id = 0, email = ''a@x.com'', fullName = None, country = None,
            profession = None, source = None, provider = ''local'', registeredAt = 5 \<rparr> \<and>
   now (up 5) = 5 \<and>
   findOne ''a@x.com'' (users ann_db) = Some ann \<and>
   (\<exists>u'. findOne ''a@x.com''
        (users (run [(up 7, UpdateDetails only_country),
                     (up 8, LinkedInCallback linkedin_ann None),
                     (up 9, RegisterEmail (JString ''a@x.com''))] ann_db)) = Some u' \<and>
        registeredAt u' = 5)"
proof -
  let ?new = "\<lparr> user_id = 0, email = ''a@x.com'', fullName = None, country = None,
            profession = None, source = None, provider = ''local'', registeredAt = 5 \<rparr>"
  have a: "findOne ''a@x.com'' (users empty_db) = None"
    by (simp add: handler_defs)
  have b: "findOne ''a@x.com'' (users (serve (up 5) (RegisterEmail (JString ''a@x.com'')) empty_db)) =
     Some ?new"
    by (simp add: handler_defs)
  have c: "findOne ''a@x.com'' (users ann_db) = Some ann"
    by (simp add: handler_defs)
  have "registeredAt ?new = now (up 5)"
    using registeredAt_set_once [of "''a@x.com''" empty_db "up 5"
        "RegisterEmail (JString ''a@x.com'')" ?new] a b
    by blast
  moreover have "\<exists>u'. findOne ''a@x.com''
        (users (run [(up 7, UpdateDetails only_country),
                     (up 8, LinkedInCallback linkedin_ann None),
                     (up 9, RegisterEmail (JString ''a@x.com''))] ann_db)) = Some u' \<and>
        registeredAt u' = registeredAt ann"
    using registeredAt_set_once [of "''a@x.com''" ann_db _ _ _ ann] c
    by blast
  ultimately show ?thesis
    using a b c by (simp add: ann_def)
qed

text \<open>
  Claim C7. No sequence of \<open>register-email\<close>, \<open>update-details\<close> and sign-in requests
  produces two records with the same email: from a collection with unique emails, every
  collection reached has unique emails.
\<close>

theorem emails_stay_unique: "unique_emails s \<Longrightarrow> unique_emails (run rs s)"
proof (induction rs arbitrary: s)
  case Nil
  then show ?case by simp
next
  case (Cons a rs)
  then show ?case by (cases a) (simp add: serve_unique)
qed

theorem emails_stay_unique_witness:
  "unique_emails empty_db \<and>
   unique_emails (run [(up 1, RegisterEmail (JString ''a@x.com'')),
                       (up 2, RegisterEmail (JString ''a@x.com'')),
                       (up 3, RegisterEmail (JString ''b@x.com''))] empty_db)"
proof -
  have "unique_emails empty_db"
    by (simp add: unique_emails_def empty_db_def)
  with emails_stay_unique [of empty_db] show ?thesis by blast
qed




text \<open>
  Claim C10. For an email that is already in the store, a successful \<open>register-email\<close>
  leaves the record's \<open>fullName\<close>, \<open>country\<close>, \<open>profession\<close>, \<open>source\<close>,
  \<open>provider\<close>, \<open>registeredAt\<close> and \<open>_id\<close> as they were.
\<close>

theorem register_email_frame:
  assumes "store_up ev" and "str_includes e CHR ''@''" and "findOne e (users s) = Some u"
  shows "\<exists>u'. findOne e (users (snd (register_email ev (JString e) s))) = Some u'
       \<and> fullName u' = fullName u \<and> country u' = country u \<and> profession u' = profession u
       \<and> source u' = source u \<and> provider u' = provider u \<and> registeredAt u' = registeredAt u
       \<and> user_id u' = user_id u"
  using assms(3) by (simp add: register_email_existing [OF assms])

theorem register_email_frame_witness:
  "store_up (up 9) \<and> str_includes ''a@x.com'' CHR ''@'' \<and>
   findOne ''a@x.com'' (users ann_db) = Some ann \<and>
   (\<exists>u'. findOne ''a@x.com'' (users (snd (register_email (up 9) (JString ''a@x.com'') ann_db))) = Some u'
       \<and> fullName u' = Some ''Ann'' \<and> country u' = None \<and> profession u' = None
       \<and> source u' = None \<and> provider u' = ''google'' \<and> registeredAt u' = 5
       \<and> user_id u' = 0)"
proof -
  have a: "store_up (up 9)" by (simp add: up_def)
  have b: "str_includes ''a@x.com'' CHR ''@''" by (simp add: str_includes_def)
  have c: "findOne ''a@x.com'' (users ann_db) = Some ann" by (simp add: findOne_def ann_db_def ann_def)
  from register_email_frame [OF a b c] a b c show ?thesis
    by (simp add: ann_def)
qed

text \<open>
  Claim C4. A Google sign-in with email \<open>e\<close> followed by a LinkedIn sign-in with the same
  email leaves exactly one record for \<open>e\<close>; its \<open>provider\<close> is \<open>linkedin\<close> and its
  \<open>fullName\<close> is the display name of the LinkedIn profile. It is the record the Google
  sign-in left (same \<open>_id\<close>, same \<open>registeredAt\<close>), with \<open>provider\<close> overwritten.
  The store answers both times, \<open>e\<close> is not the empty string, the emails of the
  collection are unique beforehand, and the LinkedIn profile has a display name.
\<close>

theorem google_then_linkedin:
  assumes "store_up ev1" and "store_up ev2" and "unique_emails s" and "e \<noteq> []"
    and "first_email gp = JString e"
    and "js_or (p_email lp) (first_email lp) = JString e"
    and "displayName lp = JString n"
  shows "\<exists>g u. records_of e (serve ev1 (GoogleCallback gp sess1) s) = [g]
            \<and> provider g = ''google''
            \<and> records_of e (serve ev2 (LinkedInCallback lp sess2)
                    (serve ev1 (GoogleCallback gp sess1) s)) = [u]
            \<and> provider u = ''linkedin'' \<and> fullName u = Some n
            \<and> user_id u = user_id g \<and> registeredAt u = registeredAt g"
proof -
  let ?s1 = "serve ev1 (GoogleCallback gp sess1) s"
  let ?s2 = "serve ev2 (LinkedInCallback lp sess2) ?s1"
  have uniq1: "unique_emails ?s1"
    using assms(3) by (rule serve_unique)
  then have uniq2: "unique_emails ?s2"
    by (rule serve_unique)
  have s1: "users ?s1 = users (snd (google_verify ev1 gp s))"
    by (simp add: auth_google_callback_def auth_callback_db)
  have s2: "users ?s2 = users (snd (linkedin_verify ev2 lp ?s1))"
    by (simp add: auth_linkedin_callback_def auth_callback_db)
  from google_verify_stores [OF assms(1,5,4), of s] obtain g where
    g: "findOne e (users ?s1) = Some g" "provider g = ''google''"
    unfolding s1 by blast
  from linkedin_verify_stores [OF assms(2,6,4,7), of ?s1] obtain u where
    u: "findOne e (users ?s2) = Some u" "provider u = ''linkedin''" "fullName u = Some n"
    unfolding s2 by blast
  from serve_keeps [OF g(1), of ev2 "LinkedInCallback lp sess2"] u(1)
  have same: "user_id u = user_id g" "registeredAt u = registeredAt g"
    by auto
  from records_of_unique [OF uniq1 g(1)] records_of_unique [OF uniq2 u(1)] g(2) u(2,3) same
  show ?thesis
    by blast
qed

theorem google_then_linkedin_witness:
  "store_up (up 5) \<and> store_up (up 8) \<and> unique_emails empty_db \<and> ''a@x.com'' \<noteq> [] \<and>
   first_email google_ann = JString ''a@x.com'' \<and>
   js_or (p_email linkedin_ann) (first_email linkedin_ann) = JString ''a@x.com'' \<and>
   displayName linkedin_ann = JString ''Ann B'' \<and>
   (\<exists>g u. records_of ''a@x.com'' (serve (up 5) (GoogleCallback google_ann None) empty_db) = [g]
      \<and> provider g = ''google''
      \<and> records_of ''a@x.com'' (serve (up 8) (LinkedInCallback linkedin_ann None)
            (serve (up 5) (GoogleCallback google_ann None) empty_db)) = [u]
      \<and> provider u = ''linkedin'' \<and> fullName u = Some ''Ann B''
      \<and> user_id u = user_id g \<and> registeredAt u = registeredAt g)"
proof -
  have h: "store_up (up 5)" "store_up (up 8)" "unique_emails empty_db" "''a@x.com'' \<noteq> []"
    "first_email google_ann = JString ''a@x.com''"
    "js_or (p_email linkedin_ann) (first_email linkedin_ann) = JString ''a@x.com''"
    "displayName linkedin_ann = JString ''Ann B''"
    by (simp_all add: handler_defs)
  from google_then_linkedin [OF h, of None None] h show ?thesis
    by blast
qed

text \<open>
  Claim C8, as stated: on an existing email the returned record reflects the supplied
  values, and a member of \<open>fullName\<close>, \<open>country\<close>, \<open>profession\<close>, \<open>source\<close> that the
  request omits overwrites the stored value with absent. The second half fails: the
  handler passes the omitted member as \<open>undefined\<close>, and the update drops such keys. A
  request that names only \<open>country\<close> leaves the stored \<open>fullName\<close> in the returned
  record.
\<close>

theorem update_details_keeps_omitted:
  "fst (update_details (up 9) only_country ann_db) =
     Json 200 (Saved details_saved
       (Some \<lparr> user_id = 0, email = ''a@x.com'', fullName = Some ''Ann'', country = Some ''PK'',
               profession = None, source = None, provider = ''google'', registeredAt = 5 \<rparr>))"
  by (simp add: handler_defs)

text \<open>
  Claim C8, amended: for a store that answers and an existing email, \<open>update-details\<close>
  returns status 200 with the stored record after the update; in it each of the four
  members is the string the request supplied, absent where the request gave null, and
  the previously stored value where the request omitted it; \<open>email\<close>, \<open>provider\<close>,
  \<open>registeredAt\<close> and \<open>_id\<close> are as before.
\<close>

theorem update_details_existing:
  assumes "store_up ev" and "d_email b = JString e" and "e \<noteq> []"
    and "findOne e (users s) = Some u"
  shows "fst (update_details ev b s) =
           Json 200 (Saved details_saved
             (Some (u\<lparr> fullName := set_path (d_fullName b) (fullName u),
                       country := set_path (d_country b) (country u),
                       profession := set_path (d_profession b) (profession u),
                       source := set_path (d_source b) (source u) \<rparr>)))
       \<and> findOne e (users (snd (update_details ev b s))) =
           Some (u\<lparr> fullName := set_path (d_fullName b) (fullName u),
                     country := set_path (d_country b) (country u),
                     profession := set_path (d_profession b) (profession u),
                     source := set_path (d_source b) (source u) \<rparr>)"
proof -
  let ?upd = "\<lparr> set_email = None, set_provider = None,
                      set_fullName = d_fullName b, set_country = d_country b,
                      set_profession = d_profession b, set_source = d_source b \<rparr>"
  have upd: "set_email ?upd = None \<or> set_email ?upd = Some e"
    by simp
  have call: "findOneAndUpdate ev e ?upd \<lparr>upsert = False, new = True\<rparr> s =
      Inr (Some (apply_update ?upd u), s\<lparr>users := modify_first e (apply_update ?upd) (users s)\<rparr>)"
    using assms(1,4) by (simp add: findOneAndUpdate_found)
  have "findOne e (modify_first e (apply_update ?upd) (users s)) = Some (apply_update ?upd u)"
    using assms(4) by (simp add: findOne_after_update [OF upd])
  with call assms(2,3) show ?thesis
    by (simp add: update_details_def apply_update_def)
qed

theorem update_details_existing_witness:
  "store_up (up 9) \<and> d_email only_country = JString ''a@x.com'' \<and> ''a@x.com'' \<noteq> [] \<and>
   findOne ''a@x.com'' (users ann_db) = Some ann \<and>
   fst (update_details (up 9) only_country ann_db) =
     Json 200 (Saved details_saved (Some (ann\<lparr>country := Some ''PK''\<rparr>))) \<and>
   findOne ''a@x.com'' (users (snd (update_details (up 9) only_country ann_db))) =
     Some (ann\<lparr>country := Some ''PK''\<rparr>)"
proof -
  have h: "store_up (up 9)" "d_email only_country = JString ''a@x.com''" "''a@x.com'' \<noteq> []"
    "findOne ''a@x.com'' (users ann_db) = Some ann"
    by (simp_all add: handler_defs)
  from update_details_existing [OF h] h show ?thesis
    by (simp add: only_country_def ann_def)
qed

text \<open>
  Claim C1, as stated: \<open>update-details\<close> on an email that is not in the store creates a
  record keyed by it and returns it, as \<open>register-email\<close> does. It does not: the call
  has no \<open>upsert\<close> option, so nothing is stored and there is no record to return.
\<close>

theorem update_details_no_upsert:
  "update_details (up 9) bob_details ann_db = (Json 200 (Saved details_saved None), ann_db)"
  by (simp add: handler_defs)

text \<open>
  Claim C1, amended: of the two signup operations only \<open>register-email\<close> is an upsert. For
  an email that is not in the store, \<open>update-details\<close> leaves the store as it was, while
  \<open>register-email\<close> appends one record keyed by that email.
\<close>

theorem upsert_only_on_register:
  assumes "findOne e (users s) = None" and "d_email b = JString e"
    and "store_up ev" and "str_includes e CHR ''@''"
  shows "snd (update_details ev b s) = s
       \<and> (\<exists>u. users (snd (register_email ev (JString e) s)) = users s @ [u] \<and> email u = e)"
proof -
  have "snd (update_details ev b s) = s"
    using assms(1,2)
    by (auto simp: update_details_def findOneAndUpdate_def split: sum.splits)
  moreover have "\<exists>u. users (snd (register_email ev (JString e) s)) = users s @ [u] \<and> email u = e"
    using assms(1,3,4) contains_at_nonempty [OF assms(4)]
    by (simp add: register_email_def findOneAndUpdate_def inserted_def apply_update_def)
  ultimately show ?thesis ..
qed

theorem upsert_only_on_register_witness:
  "findOne ''b@x.com'' (users ann_db) = None \<and> d_email bob_details = JString ''b@x.com'' \<and>
   store_up (up 9) \<and> str_includes ''b@x.com'' CHR ''@'' \<and>
   snd (update_details (up 9) bob_details ann_db) = ann_db \<and>
   (\<exists>u. users (snd (register_email (up 9) (JString ''b@x.com'') ann_db)) = users ann_db @ [u]
        \<and> email u = ''b@x.com'')"
proof -
  have h: "findOne ''b@x.com'' (users ann_db) = None" "d_email bob_details = JString ''b@x.com''"
    "store_up (up 9)" "str_includes ''b@x.com'' CHR ''@''"
    by (simp_all add: handler_defs)
  from upsert_only_on_register [OF h] h show ?thesis
    by blast
qed

text \<open>
  Claim C2 says that a sign-in whose profile carries no email is answered with a redirect
  to the error page, establishes no session and leaves the store unchanged. The verify
  callbacks report the missing email through \<open>done(new Error(...))\<close>, which passport
  hands to \<open>next(err)\<close>: the session and the store are indeed untouched, but the answer
  is the unhandled error, not the redirect to \<open>failureRedirect\<close>.
\<close>

theorem missing_email_is_error:
  assumes "\<not> truthy (first_email gp)" and "\<not> truthy (js_or (p_email lp) (first_email lp))"
  shows "auth_google_callback ev gp session s =
           (Unhandled (Error ''No email in Google profile''), session, s)
       \<and> auth_linkedin_callback ev lp session s =
           (Unhandled (Error ''No email in LinkedIn profile''), session, s)"
  using assms
  by (auto simp: auth_google_callback_def auth_linkedin_callback_def auth_callback_def
      google_verify_def linkedin_verify_def split: jsval.splits)

theorem missing_email_is_error_witness:
  "\<not> truthy (first_email no_email) \<and> \<not> truthy (js_or (p_email no_email) (first_email no_email)) \<and>
   auth_google_callback (up 9) no_email None ann_db =
           (Unhandled (Error ''No email in Google profile''), None, ann_db)
       \<and> auth_linkedin_callback (up 9) no_email None ann_db =
           (Unhandled (Error ''No email in LinkedIn profile''), None, ann_db)"
proof -
  have h: "\<not> truthy (first_email no_email)"
    "\<not> truthy (js_or (p_email no_email) (first_email no_email))"
    by (simp_all add: handler_defs)
  from missing_email_is_error [OF h] h show ?thesis
    by blast
qed

end
